theory Spec2Isabelle
  imports Main "HOL-Library.Word"
begin

section \<open>Data blocks that may be gzip-compressed (datablock.go)\<close>

text \<open>
  The development follows \<^verbatim>\<open>datablock.go\<close>: a \<^verbatim>\<open>DataBlock\<close> holds a byte slice,
  a flag telling whether the slice is gzip-compressed, the length of the slice and the
  preferred compression level. \<^verbatim>\<open>Compress\<close> and \<^verbatim>\<open>Decompress\<close> change the block in
  place; \<^verbatim>\<open>ToClient\<close> picks the representation for one HTTP response, sets the
  headers and hands the bytes to \<^verbatim>\<open>http.ServeContent\<close>.
\<close>

subsection \<open>Bytes, errors and the gzip library\<close>

type_synonym byte = "8 word"
type_synonym bytes = "byte list"

text \<open>A Go \<^verbatim>\<open>error\<close> value is kept as its message.\<close>

type_synonym error = string

text \<open>
  The package \<^verbatim>\<open>compress/gzip\<close> is not part of the repository; the functions of
  \<^verbatim>\<open>datablock.go\<close> take it as a parameter.
  \<^item> \<open>gzip_Writer lib level d\<close> stands for \<^verbatim>\<open>gzip.NewWriterLevel(w, level)\<close>,
    \<^verbatim>\<open>gw.Write(d)\<close> and the deferred \<^verbatim>\<open>gw.Close()\<close>: the bytes that end up in
    the buffer \<^verbatim>\<open>w\<close>, or the error of \<^verbatim>\<open>NewWriterLevel\<close> or \<^verbatim>\<open>Write\<close>.
  \<^item> \<open>gzip_Reader lib d\<close> stands for \<^verbatim>\<open>gzip.NewReader(bytes.NewBuffer(d))\<close> and
    \<^verbatim>\<open>ioutil.ReadAll(gr)\<close>: the decoded bytes, or the first error.
\<close>

record gzip_lib =
  gzip_Writer :: "int \<Rightarrow> bytes \<Rightarrow> error + bytes"
  gzip_Reader :: "bytes \<Rightarrow> error + bytes"

definition BestSpeed :: int where
  "BestSpeed = 1"

definition BestCompression :: int where
  "BestCompression = 9"

subsection \<open>The process: log entries, calls to the HTTP server, exit\<close>

text \<open>
  \<^verbatim>\<open>w.Header()\<close> is a \<^verbatim>\<open>map[string][]string\<close>. The keys written by this file
  (\<^verbatim>\<open>Content-Encoding\<close>, \<^verbatim>\<open>Vary\<close>) are already in canonical form.
\<close>

type_synonym header = "string \<rightharpoonup> string list"

definition Header_Set :: "header \<Rightarrow> string \<Rightarrow> string \<Rightarrow> header" where
  "Header_Set h k v = h(k \<mapsto> [v])"

definition Header_Add :: "header \<Rightarrow> string \<Rightarrow> string \<Rightarrow> header" where
  "Header_Add h k v = h(k \<mapsto> (case h k of None \<Rightarrow> [] | Some vs \<Rightarrow> vs) @ [v])"

text \<open>
  What a call does outside the block, in order: entries written through logrus and the
  call of \<^verbatim>\<open>http.ServeContent\<close> (with the header map as it stands at the call, the
  name and the content; the request is passed on untouched and the modification time is
  \<^verbatim>\<open>time.Time{}\<close>).
\<close>

datatype event =
    Log_Error error
  | Log_Fatal error
  | ServeContent header string bytes

text \<open>
  A call either returns a value or ends the process: logrus' \<^verbatim>\<open>log.Fatal\<close> writes
  the entry and then calls \<^verbatim>\<open>os.Exit(1)\<close>, so no statement after it runs.
\<close>

datatype 'a outcome = Returns 'a | Exits int

type_synonym 'a io = "event list \<times> 'a outcome"

definition io_return :: "'a \<Rightarrow> 'a io" where
  "io_return x = ([], Returns x)"

definition io_bind :: "'a io \<Rightarrow> ('a \<Rightarrow> 'b io) \<Rightarrow> 'b io" where
  "io_bind m k =
     (case m of
        (evs, Exits c) \<Rightarrow> (evs, Exits c)
      | (evs, Returns x) \<Rightarrow> (case k x of (evs', r) \<Rightarrow> (evs @ evs', r)))"

definition log_Error :: "error \<Rightarrow> unit io" where
  "log_Error err = ([Log_Error err], Returns ())"

definition log_Fatal :: "error \<Rightarrow> unit io" where
  "log_Fatal err = ([Log_Fatal err], Exits 1)"

definition http_ServeContent :: "header \<Rightarrow> string \<Rightarrow> bytes \<Rightarrow> unit io" where
  "http_ServeContent h name content = ([ServeContent h name content], Returns ())"

subsection \<open>The data block\<close>

record DataBlock =
  data :: bytes
  compressed :: bool
  length_f :: int
  compressionSpeed :: bool

definition EmptyDataBlock :: DataBlock where
  "EmptyDataBlock = \<lparr>data = [], compressed = False, length_f = 0, compressionSpeed = True\<rparr>"

definition NewDataBlock :: "bytes \<Rightarrow> bool \<Rightarrow> DataBlock" where
  "NewDataBlock d speed =
     \<lparr>data = d, compressed = False, length_f = int (length d), compressionSpeed = speed\<rparr>"

definition newDataBlockSpecified :: "bytes \<Rightarrow> bool \<Rightarrow> bool \<Rightarrow> DataBlock" where
  "newDataBlockSpecified d c speed =
     \<lparr>data = d, compressed = c, length_f = int (length d), compressionSpeed = speed\<rparr>"

subsection \<open>gzip in and out of a buffer\<close>

text \<open>
  \<^verbatim>\<open>gzipWrite\<close> and \<^verbatim>\<open>gunzipWrite\<close> write into the buffer they are given and return
  the number of bytes handed to \<^verbatim>\<open>Write\<close>; the model returns the buffer's content
  with that count.
\<close>

definition gzipWrite :: "gzip_lib \<Rightarrow> bytes \<Rightarrow> bool \<Rightarrow> error + (bytes \<times> int)" where
  "gzipWrite lib d speed =
     (let level = (if speed then BestSpeed else BestCompression) in
      case gzip_Writer lib level d of
        Inl err \<Rightarrow> Inl err
      | Inr buf \<Rightarrow> Inr (buf, int (length d)))"

definition gunzipWrite :: "gzip_lib \<Rightarrow> bytes \<Rightarrow> error + (bytes \<times> int)" where
  "gunzipWrite lib d =
     (case gzip_Reader lib d of
        Inl err \<Rightarrow> Inl err
      | Inr out \<Rightarrow> Inr (out, int (length out)))"

definition compress :: "gzip_lib \<Rightarrow> bytes \<Rightarrow> bool \<Rightarrow> error + (bytes \<times> int)" where
  "compress lib d speed =
     (if length d = 0 then Inr ([], 0)
      else case gzipWrite lib d speed of
             Inl err \<Rightarrow> Inl err
           | Inr (buf, _) \<Rightarrow> Inr (buf, int (length buf)))"

definition decompress :: "gzip_lib \<Rightarrow> bytes \<Rightarrow> error + (bytes \<times> int)" where
  "decompress lib d =
     (if length d = 0 then Inr ([], 0)
      else case gunzipWrite lib d of
             Inl err \<Rightarrow> Inl err
           | Inr (buf, _) \<Rightarrow> Inr (buf, int (length buf)))"

subsection \<open>Methods of the data block\<close>

definition UncompressedData :: "gzip_lib \<Rightarrow> DataBlock \<Rightarrow> error + (bytes \<times> int)" where
  "UncompressedData lib b =
     (if compressed b then decompress lib (data b) else Inr (data b, length_f b))"

text \<open>
  \<^verbatim>\<open>MustData\<close>: the statement \<^verbatim>\<open>return []byte{}\<close> stands after \<^verbatim>\<open>log.Fatal(err)\<close>.
\<close>

definition MustData :: "gzip_lib \<Rightarrow> DataBlock \<Rightarrow> bytes io" where
  "MustData lib b =
     (if compressed b then
        (case decompress lib (data b) of
           Inl err \<Rightarrow> io_bind (log_Fatal err) (\<lambda>_. io_return [])
         | Inr (d, _) \<Rightarrow> io_return d)
      else io_return (data b))"

definition Gzipped :: "gzip_lib \<Rightarrow> DataBlock \<Rightarrow> error + (bytes \<times> int)" where
  "Gzipped lib b =
     (if \<not> compressed b then compress lib (data b) (compressionSpeed b)
      else Inr (data b, length_f b))"

text \<open>
  \<^verbatim>\<open>Compress\<close> and \<^verbatim>\<open>Decompress\<close> have a pointer receiver: the model returns the
  block as the call leaves it, with the returned error (\<open>None\<close> for \<^verbatim>\<open>nil\<close>).
\<close>

definition Compress :: "gzip_lib \<Rightarrow> DataBlock \<Rightarrow> DataBlock \<times> error option" where
  "Compress lib b =
     (if compressed b then (b, None)
      else case compress lib (data b) (compressionSpeed b) of
             Inl err \<Rightarrow> (b, Some err)
           | Inr (d, bytesWritten) \<Rightarrow>
               (b\<lparr>data := d, compressed := True, length_f := bytesWritten\<rparr>, None))"

definition Decompress :: "gzip_lib \<Rightarrow> DataBlock \<Rightarrow> DataBlock \<times> error option" where
  "Decompress lib b =
     (if \<not> compressed b then (b, None)
      else case decompress lib (data b) of
             Inl err \<Rightarrow> (b, Some err)
           | Inr (d, bytesWritten) \<Rightarrow>
               (b\<lparr>data := d, compressed := False, length_f := bytesWritten\<rparr>, None))"

definition IsCompressed :: "DataBlock \<Rightarrow> bool" where
  "IsCompressed b = compressed b"

definition Length :: "DataBlock \<Rightarrow> int" where
  "Length b = length_f b"

definition HasData :: "DataBlock \<Rightarrow> bool" where
  "HasData b = (0 \<noteq> length_f b)"

subsection \<open>Serving a block\<close>

text \<open>
  \<^verbatim>\<open>ToClient\<close> returns the block and the header map as it leaves them, after the
  events it caused; when \<^verbatim>\<open>log.Fatal\<close> ends the process nothing is returned.
\<close>

definition ToClient ::
  "gzip_lib \<Rightarrow> DataBlock \<Rightarrow> header \<Rightarrow> string \<Rightarrow> bool \<Rightarrow> int \<Rightarrow> (DataBlock \<times> header) io" where
  "ToClient lib b w name canGzip gzipThreshold =
     (let overThreshold = (Length b > gzipThreshold) in
      io_bind
        (if \<not> canGzip then
           (case Decompress lib b of
              (b1, Some err) \<Rightarrow> io_bind (log_Fatal err) (\<lambda>_. io_return (b1, w))
            | (b1, None) \<Rightarrow> io_return (b1, w))
         else if compressed b \<or> overThreshold then
           (let w1 = Header_Set w ''Content-Encoding'' ''gzip'';
                w2 = Header_Add w1 ''Vary'' ''Accept-Encoding''
            in if overThreshold then
                 (case Compress lib b of
                    (b1, Some err) \<Rightarrow>
                      io_bind (log_Error err)
                        (\<lambda>_. io_return (b1, Header_Set w2 ''Content-Encoding'' ''identity''))
                  | (b1, None) \<Rightarrow> io_return (b1, w2))
               else io_return (b, w2))
         else io_return (b, w))
        (\<lambda>(b1, w1). io_bind (http_ServeContent w1 name (data b1)) (\<lambda>_. io_return (b1, w1))))"

subsection \<open>Units that the package can build\<close>

text \<open>
  A block is reachable when one of the constructors (or the package-level
  \<^verbatim>\<open>EmptyDataBlock\<close>) made it, or a call of \<^verbatim>\<open>Compress\<close> or \<^verbatim>\<open>Decompress\<close> left
  it, whatever that call returned.
\<close>

inductive reachable :: "gzip_lib \<Rightarrow> DataBlock \<Rightarrow> bool" for lib :: gzip_lib where
  r_new: "reachable lib (NewDataBlock d speed)"
| r_specified: "reachable lib (newDataBlockSpecified d c speed)"
| r_empty: "reachable lib EmptyDataBlock"
| r_Compress: "reachable lib b \<Longrightarrow> reachable lib (fst (Compress lib b))"
| r_Decompress: "reachable lib b \<Longrightarrow> reachable lib (fst (Decompress lib b))"

text \<open>
  \<open>evolves lib b0 b\<close>: the block \<open>b0\<close> has become \<open>b\<close> through calls of
  \<^verbatim>\<open>Compress\<close> and \<^verbatim>\<open>Decompress\<close>.
\<close>

inductive evolves :: "gzip_lib \<Rightarrow> DataBlock \<Rightarrow> DataBlock \<Rightarrow> bool"
  for lib :: gzip_lib and b0 :: DataBlock where
  e_start: "evolves lib b0 b0"
| e_Compress: "evolves lib b0 b \<Longrightarrow> evolves lib b0 (fst (Compress lib b))"
| e_Decompress: "evolves lib b0 b \<Longrightarrow> evolves lib b0 (fst (Decompress lib b))"

subsection \<open>What is expected of the gzip library\<close>

text \<open>
  \<open>gzip_sound\<close>: whatever the writer produces is not empty (a gzip stream starts with
  a ten-byte header) and the reader decodes it to the bytes that were written.
  \<open>holds_gzip lib d\<close>: the reader accepts \<open>d\<close> as a gzip stream.
\<close>

definition gzip_sound :: "gzip_lib \<Rightarrow> bool" where
  "gzip_sound lib \<longleftrightarrow>
     (\<forall>level d buf. gzip_Writer lib level d = Inr buf \<longrightarrow>
        buf \<noteq> [] \<and> gzip_Reader lib buf = Inr d)"

definition holds_gzip :: "gzip_lib \<Rightarrow> bytes \<Rightarrow> bool" where
  "holds_gzip lib d = (case gzip_Reader lib d of Inl _ \<Rightarrow> False | Inr _ \<Rightarrow> True)"

text \<open>
  \<open>stores lib b d\<close>: the block \<open>b\<close> holds the content \<open>d\<close> in the representation its
  flag announces. A compressed block holds a non-empty gzip stream of \<open>d\<close>, except for
  the empty content, which \<^verbatim>\<open>compress\<close> leaves empty.
\<close>

definition stores :: "gzip_lib \<Rightarrow> DataBlock \<Rightarrow> bytes \<Rightarrow> bool" where
  "stores lib b d \<longleftrightarrow>
     length_f b = int (length (data b)) \<and>
     (if compressed b
      then (if d = [] then data b = [] else data b \<noteq> [] \<and> gzip_Reader lib (data b) = Inr d)
      else data b = d)"

subsection \<open>An instance of the gzip parameter for concrete inputs\<close>

text \<open>
  Evaluating the functions on a concrete block needs a concrete \<open>gzip_lib\<close>.
  \<open>framed_gzip\<close> is a small one with the behaviour of \<^verbatim>\<open>compress/gzip\<close> that matters
  here: the writer never fails and puts the two magic bytes of RFC 1952 (\<open>0x1f\<close>,
  \<open>0x8b\<close>) in front of the payload, the reader gives the payload back and rejects
  input that is too short or does not start with the magic bytes (as \<^verbatim>\<open>gzip.NewReader\<close>
  does with \<^verbatim>\<open>io.EOF\<close>, \<^verbatim>\<open>io.ErrUnexpectedEOF\<close> and \<^verbatim>\<open>gzip.ErrHeader\<close>).
  \<open>failing_gzip\<close> has a writer that always fails, for the error path of \<^verbatim>\<open>Compress\<close>.
\<close>

definition framed_Writer :: "int \<Rightarrow> bytes \<Rightarrow> error + bytes" where
  "framed_Writer level d = Inr (0x1f # 0x8b # d)"

fun framed_Reader :: "bytes \<Rightarrow> error + bytes" where
  "framed_Reader [] = Inl ''EOF''"
| "framed_Reader [x] = Inl ''unexpected EOF''"
| "framed_Reader (x # y # d) =
     (if x = 0x1f \<and> y = 0x8b then Inr d else Inl ''gzip: invalid header'')"

definition framed_gzip :: gzip_lib where
  "framed_gzip = \<lparr>gzip_Writer = framed_Writer, gzip_Reader = framed_Reader\<rparr>"

definition failing_gzip :: gzip_lib where
  "failing_gzip =
     \<lparr>gzip_Writer = (\<lambda>level d. Inl ''gzip: write failed''), gzip_Reader = framed_Reader\<rparr>"

section \<open>Properties\<close>

subsection \<open>Evaluation and the steps of a call\<close>

lemmas block_defs = NewDataBlock_def newDataBlockSpecified_def EmptyDataBlock_def Length_def

lemmas gzip_defs = compress_def decompress_def gzipWrite_def gunzipWrite_def
  framed_gzip_def framed_Writer_def failing_gzip_def

lemma io_bind_Returns: "io_bind (evs, Returns x) k = (evs @ fst (k x), snd (k x))"
  by (simp add: io_bind_def split: prod.splits)

lemma io_bind_Exits: "io_bind (evs, Exits c) k = (evs, Exits c)"
  by (simp add: io_bind_def)

lemmas io_simps = io_bind_Returns io_bind_Exits io_return_def log_Error_def log_Fatal_def
  http_ServeContent_def

lemma framed_gzip_sound: "gzip_sound framed_gzip"
  by (simp add: gzip_sound_def framed_gzip_def framed_Writer_def)

lemma compress_length:
  assumes "compress lib d speed = Inr (buf, n)"
  shows "n = int (length buf)"
  using assms by (auto simp: compress_def split: if_splits sum.splits prod.splits)

lemma decompress_length:
  assumes "decompress lib d = Inr (buf, n)"
  shows "n = int (length buf)"
  using assms by (auto simp: decompress_def split: if_splits sum.splits prod.splits)

lemma Compress_error_unchanged:
  assumes "snd (Compress lib b) = Some err"
  shows "fst (Compress lib b) = b \<and> \<not> compressed b"
  using assms by (auto simp: Compress_def split: if_splits sum.splits prod.splits)

lemma Decompress_error_unchanged:
  assumes "snd (Decompress lib b) = Some err"
  shows "fst (Decompress lib b) = b \<and> compressed b"
  using assms by (auto simp: Decompress_def split: if_splits sum.splits prod.splits)

lemma Compress_ok_compressed:
  assumes "snd (Compress lib b) = None"
  shows "compressed (fst (Compress lib b))"
  using assms by (auto simp: Compress_def split: if_splits sum.splits prod.splits)

lemma Decompress_ok_uncompressed:
  assumes "snd (Decompress lib b) = None"
  shows "\<not> compressed (fst (Decompress lib b))"
  using assms by (auto simp: Decompress_def split: if_splits sum.splits prod.splits)

text \<open>The three ways through \<^verbatim>\<open>ToClient\<close>.\<close>

lemma ToClient_over:
  assumes "Length b > T"
  shows "ToClient lib b w name True T =
     (case Compress lib b of
        (b1, None) \<Rightarrow>
          ([ServeContent
              (Header_Add (Header_Set w ''Content-Encoding'' ''gzip'') ''Vary'' ''Accept-Encoding'')
              name (data b1)],
           Returns (b1,
             Header_Add (Header_Set w ''Content-Encoding'' ''gzip'') ''Vary'' ''Accept-Encoding''))
      | (b1, Some err) \<Rightarrow>
          ([Log_Error err,
            ServeContent
              (Header_Set
                 (Header_Add (Header_Set w ''Content-Encoding'' ''gzip'') ''Vary'' ''Accept-Encoding'')
                 ''Content-Encoding'' ''identity'')
              name (data b1)],
           Returns (b1,
             Header_Set
               (Header_Add (Header_Set w ''Content-Encoding'' ''gzip'') ''Vary'' ''Accept-Encoding'')
               ''Content-Encoding'' ''identity'')))"
  using assms by (simp add: ToClient_def Let_def io_simps split: prod.splits option.splits)

lemma ToClient_under:
  assumes "Length b \<le> T"
  shows "ToClient lib b w name True T =
     (if compressed b then
        ([ServeContent
            (Header_Add (Header_Set w ''Content-Encoding'' ''gzip'') ''Vary'' ''Accept-Encoding'')
            name (data b)],
         Returns (b,
           Header_Add (Header_Set w ''Content-Encoding'' ''gzip'') ''Vary'' ''Accept-Encoding''))
      else ([ServeContent w name (data b)], Returns (b, w)))"
  using assms by (simp add: ToClient_def Let_def io_simps)

lemma ToClient_noGzip:
  "ToClient lib b w name False T =
     (case Decompress lib b of
        (b1, None) \<Rightarrow> ([ServeContent w name (data b1)], Returns (b1, w))
      | (b1, Some err) \<Rightarrow> ([Log_Fatal err], Exits 1))"
  by (simp add: ToClient_def Let_def io_simps split: prod.splits option.splits)

subsection \<open>The threshold\<close>

text \<open>
  C1. With a client that accepts gzip, \<^verbatim>\<open>ToClient\<close> calls \<^verbatim>\<open>Compress\<close> exactly when
  \<^verbatim>\<open>b.Length()\<close>, the length of the block as it is stored now, is strictly greater than
  the threshold. Over the threshold the block that is served and left behind is the one
  \<^verbatim>\<open>Compress\<close> leaves for the block as it came in: compressed whenever
  \<^verbatim>\<open>Compress\<close> returned \<^verbatim>\<open>nil\<close>, with the error logged otherwise. At the threshold
  or below it the block is served untouched and nothing is logged, whatever the gzip
  library would have done: a block of length exactly \<open>T\<close> is not compressed, a block of
  length \<open>T + 1\<close> is.
\<close>

theorem threshold_is_strict:
  "(Length b > T \<longrightarrow>
      (\<exists>evs h. ToClient lib b w name True T = (evs, Returns (fst (Compress lib b), h)) \<and>
         ServeContent h name (data (fst (Compress lib b))) \<in> set evs \<and>
         (\<forall>err. snd (Compress lib b) = Some err \<longrightarrow> Log_Error err \<in> set evs)) \<and>
      (snd (Compress lib b) = None \<longrightarrow> compressed (fst (Compress lib b)))) \<and>
   (Length b \<le> T \<longrightarrow>
      (\<exists>h. ToClient lib b w name True T = ([ServeContent h name (data b)], Returns (b, h))))"
proof (intro conjI impI)
  assume over: "Length b > T"
  obtain b1 e where c: "Compress lib b = (b1, e)" by (cases "Compress lib b")
  show "\<exists>evs h. ToClient lib b w name True T = (evs, Returns (fst (Compress lib b), h)) \<and>
         ServeContent h name (data (fst (Compress lib b))) \<in> set evs \<and>
         (\<forall>err. snd (Compress lib b) = Some err \<longrightarrow> Log_Error err \<in> set evs)"
    using c by (cases e) (simp_all add: ToClient_over [OF over])
next
  assume "snd (Compress lib b) = None"
  then show "compressed (fst (Compress lib b))" by (rule Compress_ok_compressed)
next
  assume under: "Length b \<le> T"
  show "\<exists>h. ToClient lib b w name True T = ([ServeContent h name (data b)], Returns (b, h))"
    by (simp add: ToClient_under [OF under])
qed

theorem threshold_is_strict_witness:
  "Length (NewDataBlock [1, 2, 3] True) \<le> 3 \<and>
   (\<exists>h. ToClient failing_gzip (NewDataBlock [1, 2, 3] True) Map.empty ''a.txt'' True 3 =
      ([ServeContent h ''a.txt'' [1, 2, 3]], Returns (NewDataBlock [1, 2, 3] True, h))) \<and>
   Length (NewDataBlock [1, 2, 3, 4] True) > 3 \<and>
   (\<exists>evs h. ToClient framed_gzip (NewDataBlock [1, 2, 3, 4] True) Map.empty ''a.txt'' True 3 =
      (evs, Returns (\<lparr>data = [0x1f, 0x8b, 1, 2, 3, 4], compressed = True, length_f = 6,
                       compressionSpeed = True\<rparr>, h)) \<and>
      ServeContent h ''a.txt'' [0x1f, 0x8b, 1, 2, 3, 4] \<in> set evs)"
proof -
  have under: "Length (NewDataBlock [1, 2, 3] True) \<le> 3"
    by (simp add: block_defs)
  have over: "Length (NewDataBlock [1, 2, 3, 4] True) > 3"
    by (simp add: block_defs)
  have c: "Compress framed_gzip (NewDataBlock [1, 2, 3, 4] True) =
      (\<lparr>data = [0x1f, 0x8b, 1, 2, 3, 4], compressed = True, length_f = 6,
         compressionSpeed = True\<rparr>, None)"
    by (simp add: Compress_def block_defs gzip_defs)
  from threshold_is_strict [where b = "NewDataBlock [1, 2, 3] True" and T = 3
      and lib = failing_gzip and w = Map.empty and name = "''a.txt''"] under
  have 1: "\<exists>h. ToClient failing_gzip (NewDataBlock [1, 2, 3] True) Map.empty ''a.txt'' True 3 =
      ([ServeContent h ''a.txt'' [1, 2, 3]], Returns (NewDataBlock [1, 2, 3] True, h))"
    by (simp add: NewDataBlock_def)
  from threshold_is_strict [where b = "NewDataBlock [1, 2, 3, 4] True" and T = 3
      and lib = framed_gzip and w = Map.empty and name = "''a.txt''"] over c
  have 2: "\<exists>evs h.
      ToClient framed_gzip (NewDataBlock [1, 2, 3, 4] True) Map.empty ''a.txt'' True 3 =
      (evs, Returns (\<lparr>data = [0x1f, 0x8b, 1, 2, 3, 4], compressed = True, length_f = 6,
                       compressionSpeed = True\<rparr>, h)) \<and>
      ServeContent h ''a.txt'' [0x1f, 0x8b, 1, 2, 3, 4] \<in> set evs"
    by auto
  from under 1 over 2 show ?thesis by (intro conjI)
qed

subsection \<open>A client without gzip\<close>

text \<open>
  C2. When the block is flagged compressed and its bytes do not decompress, a call of
  \<^verbatim>\<open>ToClient\<close> for a client that cannot take gzip ends in \<^verbatim>\<open>log.Fatal\<close>: the only
  event is the fatal log entry, the process exits with status 1, and
  \<^verbatim>\<open>http.ServeContent\<close> is not called.
\<close>

theorem decode_failure_is_fatal:
  assumes "compressed b" and "decompress lib (data b) = Inl err"
  shows "ToClient lib b w name False T = ([Log_Fatal err], Exits 1) \<and>
         (\<forall>h n c. ServeContent h n c \<notin> set (fst (ToClient lib b w name False T)))"
proof -
  from assms have "Decompress lib b = (b, Some err)"
    by (simp add: Decompress_def)
  then have "ToClient lib b w name False T = ([Log_Fatal err], Exits 1)"
    by (simp add: ToClient_noGzip)
  then show ?thesis by simp
qed

theorem decode_failure_is_fatal_witness:
  "compressed (newDataBlockSpecified [1, 2, 3, 4, 5, 6, 7, 8, 9, 10, 11] True True) \<and>
   decompress framed_gzip
       (data (newDataBlockSpecified [1, 2, 3, 4, 5, 6, 7, 8, 9, 10, 11] True True)) =
     Inl ''gzip: invalid header'' \<and>
   ToClient framed_gzip (newDataBlockSpecified [1, 2, 3, 4, 5, 6, 7, 8, 9, 10, 11] True True)
       Map.empty ''a.txt'' False 0 =
     ([Log_Fatal ''gzip: invalid header''], Exits 1)"
proof -
  let ?b = "newDataBlockSpecified [1, 2, 3, 4, 5, 6, 7, 8, 9, 10, 11] True True"
  have c: "compressed ?b"
    by (simp add: block_defs)
  have d: "decompress framed_gzip (data ?b) = Inl ''gzip: invalid header''"
    by (simp add: block_defs gzip_defs)
  from decode_failure_is_fatal [OF c d] c d show ?thesis
    by simp
qed

text \<open>
  C5. When the block is flagged compressed and its bytes decompress to \<open>d\<close>, a call of
  \<^verbatim>\<open>ToClient\<close> for a client that cannot take gzip leaves the block uncompressed with
  payload \<open>d\<close>, hands \<open>d\<close> to \<^verbatim>\<open>http.ServeContent\<close>, and leaves the header map as it
  found it: no \<^verbatim>\<open>Content-Encoding\<close> is set.
\<close>

theorem no_gzip_client_forces_uncompressed:
  assumes "compressed b" and "decompress lib (data b) = Inr (d, n)"
  shows "ToClient lib b w name False T =
           ([ServeContent w name d],
            Returns (b\<lparr>data := d, compressed := False, length_f := n\<rparr>, w))"
proof -
  from assms
  have "Decompress lib b = (b\<lparr>data := d, compressed := False, length_f := n\<rparr>, None)"
    by (simp add: Decompress_def)
  then show ?thesis by (simp add: ToClient_noGzip)
qed

theorem no_gzip_client_forces_uncompressed_witness:
  "compressed (newDataBlockSpecified [0x1f, 0x8b, 7] True True) \<and>
   decompress framed_gzip (data (newDataBlockSpecified [0x1f, 0x8b, 7] True True)) =
     Inr ([7], 1) \<and>
   ToClient framed_gzip (newDataBlockSpecified [0x1f, 0x8b, 7] True True) Map.empty
       ''a.txt'' False 1000 =
     ([ServeContent Map.empty ''a.txt'' [7]],
      Returns (\<lparr>data = [7], compressed = False, length_f = 1, compressionSpeed = True\<rparr>,
               Map.empty))"
proof -
  let ?b = "newDataBlockSpecified [0x1f, 0x8b, 7] True True"
  have c: "compressed ?b"
    by (simp add: block_defs)
  have d: "decompress framed_gzip (data ?b) = Inr ([7], 1)"
    by (simp add: block_defs gzip_defs)
  from no_gzip_client_forces_uncompressed [OF c d, of Map.empty "''a.txt''" 1000] c d
  show ?thesis
    by (simp add: block_defs)
qed

subsection \<open>A client with gzip\<close>

text \<open>
  C3. When the block is over the threshold, the client accepts gzip and \<^verbatim>\<open>Compress\<close>
  returns an error, \<^verbatim>\<open>ToClient\<close> logs the error with \<^verbatim>\<open>log.Error\<close>, sets
  \<^verbatim>\<open>Content-Encoding\<close> to \<^verbatim>\<open>identity\<close> and still calls \<^verbatim>\<open>http.ServeContent\<close> with the
  bytes of the block, which is unchanged and not compressed; the call returns.
\<close>

theorem encode_failure_falls_back:
  assumes "Length b > T" and "snd (Compress lib b) = Some err"
  shows "\<exists>h. ToClient lib b w name True T =
             ([Log_Error err, ServeContent h name (data b)], Returns (b, h)) \<and>
           h ''Content-Encoding'' = Some [''identity''] \<and> \<not> compressed b"
proof -
  from Compress_error_unchanged [OF assms(2)] assms(2)
  have c: "Compress lib b = (b, Some err)" and u: "\<not> compressed b"
    by (simp_all add: prod_eq_iff)
  show ?thesis
    using u by (simp add: ToClient_over [OF assms(1)] c Header_Set_def)
qed

theorem encode_failure_falls_back_witness:
  "Length (NewDataBlock [1, 2, 3] True) > 2 \<and>
   snd (Compress failing_gzip (NewDataBlock [1, 2, 3] True)) = Some ''gzip: write failed'' \<and>
   (\<exists>h. ToClient failing_gzip (NewDataBlock [1, 2, 3] True) Map.empty ''a.txt'' True 2 =
      ([Log_Error ''gzip: write failed'', ServeContent h ''a.txt'' [1, 2, 3]],
       Returns (NewDataBlock [1, 2, 3] True, h)) \<and>
      h ''Content-Encoding'' = Some [''identity''])"
proof -
  let ?b = "NewDataBlock [1, 2, 3] True"
  have over: "Length ?b > 2"
    by (simp add: block_defs)
  have fails: "snd (Compress failing_gzip ?b) = Some ''gzip: write failed''"
    by (simp add: Compress_def block_defs gzip_defs BestSpeed_def)
  from encode_failure_falls_back [OF over fails, of Map.empty "''a.txt''"]
  obtain h where
    "ToClient failing_gzip ?b Map.empty ''a.txt'' True 2 =
       ([Log_Error ''gzip: write failed'', ServeContent h ''a.txt'' (data ?b)], Returns (?b, h))"
    and "h ''Content-Encoding'' = Some [''identity'']"
    by blast
  moreover have "data ?b = [1, 2, 3]"
    by (simp add: block_defs)
  ultimately show ?thesis
    using over fails by auto
qed

text \<open>
  C4. When the block is already flagged compressed and its length is at or below the
  threshold, \<^verbatim>\<open>ToClient\<close> for a client that accepts gzip sets \<^verbatim>\<open>Content-Encoding\<close> to
  \<^verbatim>\<open>gzip\<close> and appends \<^verbatim>\<open>Accept-Encoding\<close> to \<^verbatim>\<open>Vary\<close>; the block is served as it
  is, the gzip library is not consulted and nothing is logged.
\<close>

theorem already_compressed_bypasses_threshold:
  assumes "compressed b" and "Length b \<le> T"
  shows "\<exists>h. ToClient lib b w name True T = ([ServeContent h name (data b)], Returns (b, h)) \<and>
           h ''Content-Encoding'' = Some [''gzip''] \<and>
           h ''Vary'' =
             Some ((case w ''Vary'' of None \<Rightarrow> [] | Some vs \<Rightarrow> vs) @ [''Accept-Encoding''])"
  using assms(1) by (simp add: ToClient_under [OF assms(2)] Header_Set_def Header_Add_def)

theorem already_compressed_bypasses_threshold_witness:
  "compressed (newDataBlockSpecified [0x1f, 0x8b, 7] True True) \<and>
   Length (newDataBlockSpecified [0x1f, 0x8b, 7] True True) \<le> 1000 \<and>
   (\<exists>h. ToClient failing_gzip (newDataBlockSpecified [0x1f, 0x8b, 7] True True) Map.empty
           ''a.txt'' True 1000 =
      ([ServeContent h ''a.txt'' [0x1f, 0x8b, 7]],
       Returns (newDataBlockSpecified [0x1f, 0x8b, 7] True True, h)) \<and>
      h ''Content-Encoding'' = Some [''gzip''] \<and> h ''Vary'' = Some [''Accept-Encoding''])"
proof -
  let ?b = "newDataBlockSpecified [0x1f, 0x8b, 7] True True"
  have c: "compressed ?b"
    by (simp add: block_defs)
  have under: "Length ?b \<le> 1000"
    by (simp add: block_defs)
  have d: "data ?b = [0x1f, 0x8b, 7]"
    by (simp add: block_defs)
  from already_compressed_bypasses_threshold [OF c under, of failing_gzip Map.empty "''a.txt''"]
  have "\<exists>h. ToClient failing_gzip ?b Map.empty ''a.txt'' True 1000 =
          ([ServeContent h ''a.txt'' [0x1f, 0x8b, 7]], Returns (?b, h)) \<and>
        h ''Content-Encoding'' = Some [''gzip''] \<and> h ''Vary'' = Some [''Accept-Encoding'']"
    by (simp add: d)
  with c under show ?thesis by simp
qed

text \<open>
  C10. On the fallback of C3 the second \<^verbatim>\<open>Header().Set\<close> changes the
  \<^verbatim>\<open>Content-Encoding\<close> entry only: every other key holds what it held after the gzip
  headers were written, so the response carries \<^verbatim>\<open>Content-Encoding: identity\<close>
  together with the \<^verbatim>\<open>Vary\<close> entry that ends in \<^verbatim>\<open>Accept-Encoding\<close>.
\<close>

theorem fallback_keeps_other_headers:
  assumes "Length b > T" and "snd (Compress lib b) = Some err"
  shows "\<exists>evs b1 h. ToClient lib b w name True T = (evs, Returns (b1, h)) \<and>
           h ''Content-Encoding'' = Some [''identity''] \<and>
           h ''Vary'' =
             Some ((case w ''Vary'' of None \<Rightarrow> [] | Some vs \<Rightarrow> vs) @ [''Accept-Encoding'']) \<and>
           (\<forall>k. k \<noteq> ''Content-Encoding'' \<longrightarrow>
              h k = (Header_Add (Header_Set w ''Content-Encoding'' ''gzip'')
                       ''Vary'' ''Accept-Encoding'') k)"
proof -
  from Compress_error_unchanged [OF assms(2)] assms(2)
  have c: "Compress lib b = (b, Some err)"
    by (simp add: prod_eq_iff)
  show ?thesis
    by (simp add: ToClient_over [OF assms(1)] c Header_Set_def Header_Add_def)
qed

theorem fallback_keeps_other_headers_witness:
  "Length (NewDataBlock [1, 2, 3] True) > 2 \<and>
   snd (Compress failing_gzip (NewDataBlock [1, 2, 3] True)) = Some ''gzip: write failed'' \<and>
   (\<exists>evs b1 h.
      ToClient failing_gzip (NewDataBlock [1, 2, 3] True)
        [''Vary'' \<mapsto> [''Origin''], ''Server'' \<mapsto> [''algernon'']] ''a.txt'' True 2 =
        (evs, Returns (b1, h)) \<and>
      h ''Content-Encoding'' = Some [''identity''] \<and>
      h ''Vary'' = Some [''Origin'', ''Accept-Encoding''] \<and>
      h ''Server'' = Some [''algernon''])"
proof -
  let ?b = "NewDataBlock [1, 2, 3] True"
  let ?w = "[''Vary'' \<mapsto> [''Origin''], ''Server'' \<mapsto> [''algernon'']]"
  have over: "Length ?b > 2"
    by (simp add: block_defs)
  have fails: "snd (Compress failing_gzip ?b) = Some ''gzip: write failed''"
    by (simp add: Compress_def block_defs gzip_defs BestSpeed_def)
  from fallback_keeps_other_headers [OF over fails, of ?w "''a.txt''"]
  obtain evs b1 h where all:
    "ToClient failing_gzip ?b ?w ''a.txt'' True 2 = (evs, Returns (b1, h)) \<and>
     h ''Content-Encoding'' = Some [''identity''] \<and>
     h ''Vary'' =
       Some ((case ?w ''Vary'' of None \<Rightarrow> [] | Some vs \<Rightarrow> vs) @ [''Accept-Encoding'']) \<and>
     (\<forall>k. k \<noteq> ''Content-Encoding'' \<longrightarrow>
        h k = (Header_Add (Header_Set ?w ''Content-Encoding'' ''gzip'')
                 ''Vary'' ''Accept-Encoding'') k)"
    by (elim exE)
  note t = all [THEN conjunct1]
    and ce = all [THEN conjunct2, THEN conjunct1]
    and vary = all [THEN conjunct2, THEN conjunct2, THEN conjunct1]
    and others = all [THEN conjunct2, THEN conjunct2, THEN conjunct2]
  from vary have v: "h ''Vary'' = Some [''Origin'', ''Accept-Encoding'']"
    by simp
  from others have "''Server'' \<noteq> ''Content-Encoding'' \<longrightarrow>
      h ''Server'' = (Header_Add (Header_Set ?w ''Content-Encoding'' ''gzip'')
                        ''Vary'' ''Accept-Encoding'') ''Server''"
    by (rule spec)
  then have s: "h ''Server'' = Some [''algernon'']"
    by (simp add: Header_Add_def Header_Set_def)
  have "ToClient failing_gzip ?b ?w ''a.txt'' True 2 = (evs, Returns (b1, h)) \<and>
      h ''Content-Encoding'' = Some [''identity''] \<and>
      h ''Vary'' = Some [''Origin'', ''Accept-Encoding''] \<and>
      h ''Server'' = Some [''algernon'']"
    using t ce v s by (intro conjI)
  then have "\<exists>evs b1 h.
      ToClient failing_gzip ?b ?w ''a.txt'' True 2 = (evs, Returns (b1, h)) \<and>
      h ''Content-Encoding'' = Some [''identity''] \<and>
      h ''Vary'' = Some [''Origin'', ''Accept-Encoding''] \<and>
      h ''Server'' = Some [''algernon'']"
    by (intro exI)
  with over fails show ?thesis by (intro conjI)
qed

subsection \<open>MustData\<close>

text \<open>
  C6. The doc comment of \<^verbatim>\<open>MustData\<close> promises the uncompressed data or an empty byte
  slice. The code does not deliver the second half: when the block is flagged compressed
  and its bytes do not decompress, \<^verbatim>\<open>log.Fatal\<close> ends the process, the
  \<^verbatim>\<open>return []byte{}\<close> behind it never runs and the caller gets nothing back.
\<close>

theorem MustData_exits_on_decode_failure:
  assumes "compressed b" and "decompress lib (data b) = Inl err"
  shows "MustData lib b = ([Log_Fatal err], Exits 1)"
  using assms by (simp add: MustData_def io_simps)

theorem MustData_exits_on_decode_failure_witness:
  "compressed (newDataBlockSpecified [1, 2, 3, 4, 5, 6, 7, 8, 9, 10, 11] True True) \<and>
   decompress framed_gzip
       (data (newDataBlockSpecified [1, 2, 3, 4, 5, 6, 7, 8, 9, 10, 11] True True)) =
     Inl ''gzip: invalid header'' \<and>
   MustData framed_gzip (newDataBlockSpecified [1, 2, 3, 4, 5, 6, 7, 8, 9, 10, 11] True True) =
     ([Log_Fatal ''gzip: invalid header''], Exits 1) \<and>
   snd (MustData framed_gzip
          (newDataBlockSpecified [1, 2, 3, 4, 5, 6, 7, 8, 9, 10, 11] True True)) \<noteq>
     Returns []"
proof -
  let ?b = "newDataBlockSpecified [1, 2, 3, 4, 5, 6, 7, 8, 9, 10, 11] True True"
  have c: "compressed ?b"
    by (simp add: block_defs)
  have d: "decompress framed_gzip (data ?b) = Inl ''gzip: invalid header''"
    by (simp add: block_defs gzip_defs)
  from MustData_exits_on_decode_failure [OF c d] c d show ?thesis
    by simp
qed

subsection \<open>Compress and Decompress\<close>

lemma compress_Inr_nonempty:
  assumes "gzip_sound lib" and "d \<noteq> []" and "compress lib d speed = Inr (buf, n)"
  shows "buf \<noteq> [] \<and> gzip_Reader lib buf = Inr d"
proof -
  from assms(2,3) obtain level where "gzip_Writer lib level d = Inr buf"
    by (auto simp: compress_def gzipWrite_def Let_def split: sum.splits)
  with assms(1) show ?thesis
    unfolding gzip_sound_def by blast
qed

lemma decompress_compress:
  assumes "gzip_sound lib" and "compress lib d speed = Inr (buf, n)"
  shows "decompress lib buf = Inr (d, int (length d))"
proof (cases "d = []")
  case True
  with assms(2) have "buf = []" by (simp add: compress_def)
  with True show ?thesis by (simp add: decompress_def)
next
  case False
  from compress_Inr_nonempty [OF assms(1) False assms(2)]
  show ?thesis by (simp add: decompress_def gunzipWrite_def)
qed

text \<open>
  C7. With a gzip library whose reader decodes what its writer wrote, a block made by
  \<^verbatim>\<open>NewDataBlock\<close> from any bytes \<open>d\<close> holds \<open>d\<close> again, with length \<open>len(d)\<close>, after
  \<^verbatim>\<open>Compress\<close> followed by \<^verbatim>\<open>Decompress\<close>; it is flagged uncompressed and
  \<^verbatim>\<open>Decompress\<close> returns \<^verbatim>\<open>nil\<close>. This includes the empty \<open>d\<close> and the case of a
  writer that fails, where \<^verbatim>\<open>Compress\<close> leaves the block as it was.
\<close>

theorem compress_then_decompress:
  assumes "gzip_sound lib"
  shows "data (fst (Decompress lib (fst (Compress lib (NewDataBlock d speed))))) = d \<and>
         length_f (fst (Decompress lib (fst (Compress lib (NewDataBlock d speed))))) =
           int (length d) \<and>
         \<not> compressed (fst (Decompress lib (fst (Compress lib (NewDataBlock d speed))))) \<and>
         snd (Decompress lib (fst (Compress lib (NewDataBlock d speed)))) = None"
proof (cases "compress lib d speed")
  case (Inl err)
  then have "Compress lib (NewDataBlock d speed) = (NewDataBlock d speed, Some err)"
    by (simp add: Compress_def NewDataBlock_def)
  then show ?thesis
    by (simp add: Decompress_def NewDataBlock_def)
next
  case (Inr r)
  obtain buf n where r: "r = (buf, n)" by (cases r)
  from decompress_compress [OF assms] Inr r
  have undo: "decompress lib buf = Inr (d, int (length d))" by simp
  from Inr r have "fst (Compress lib (NewDataBlock d speed)) =
      \<lparr>data = buf, compressed = True, length_f = n, compressionSpeed = speed\<rparr>"
    by (simp add: Compress_def NewDataBlock_def)
  with undo show ?thesis
    by (simp add: Decompress_def)
qed

theorem compress_then_decompress_witness:
  "gzip_sound framed_gzip \<and>
   fst (Compress framed_gzip (NewDataBlock [1, 2, 3] True)) =
     \<lparr>data = [0x1f, 0x8b, 1, 2, 3], compressed = True, length_f = 5,
        compressionSpeed = True\<rparr> \<and>
   data (fst (Decompress framed_gzip (fst (Compress framed_gzip (NewDataBlock [1, 2, 3] True))))) =
     [1, 2, 3] \<and>
   length_f (fst (Decompress framed_gzip
     (fst (Compress framed_gzip (NewDataBlock [1, 2, 3] True))))) = 3"
proof -
  have c: "fst (Compress framed_gzip (NewDataBlock [1, 2, 3] True)) =
     \<lparr>data = [0x1f, 0x8b, 1, 2, 3], compressed = True, length_f = 5,
        compressionSpeed = True\<rparr>"
    by (simp add: Compress_def block_defs gzip_defs)
  from compress_then_decompress [OF framed_gzip_sound, of "[1, 2, 3]" True] c framed_gzip_sound
  show ?thesis
    by simp
qed

subsection \<open>The length field\<close>

lemma Compress_keeps_length:
  assumes "length_f b = int (length (data b))"
  shows "length_f (fst (Compress lib b)) = int (length (data (fst (Compress lib b))))"
proof (cases "compressed b")
  case True
  then show ?thesis using assms by (simp add: Compress_def)
next
  case False
  show ?thesis
  proof (cases "compress lib (data b) (compressionSpeed b)")
    case (Inl err)
    with False assms show ?thesis by (simp add: Compress_def)
  next
    case (Inr r)
    obtain buf n where r: "r = (buf, n)" by (cases r)
    with Inr have "n = int (length buf)" by (simp add: compress_length)
    with False Inr r show ?thesis by (simp add: Compress_def)
  qed
qed

lemma Decompress_keeps_length:
  assumes "length_f b = int (length (data b))"
  shows "length_f (fst (Decompress lib b)) = int (length (data (fst (Decompress lib b))))"
proof (cases "compressed b")
  case False
  then show ?thesis using assms by (simp add: Decompress_def)
next
  case True
  show ?thesis
  proof (cases "decompress lib (data b)")
    case (Inl err)
    with True assms show ?thesis by (simp add: Decompress_def)
  next
    case (Inr r)
    obtain buf n where r: "r = (buf, n)" by (cases r)
    with Inr have "n = int (length buf)" by (simp add: decompress_length)
    with True Inr r show ?thesis by (simp add: Decompress_def)
  qed
qed

text \<open>
  C8. For every reachable block the \<^verbatim>\<open>length\<close> field equals the number of bytes of
  \<^verbatim>\<open>data\<close>: after each constructor, and after every call of \<^verbatim>\<open>Compress\<close> or
  \<^verbatim>\<open>Decompress\<close>, whether the call returned \<^verbatim>\<open>nil\<close> or an error. No property of the
  gzip library is needed.
\<close>

theorem length_field_is_payload_length:
  assumes "reachable lib b"
  shows "length_f b = int (length (data b))"
  using assms
proof (induction rule: reachable.induct)
  case (r_new d speed)
  show ?case by (simp add: NewDataBlock_def)
next
  case (r_specified d c speed)
  show ?case by (simp add: newDataBlockSpecified_def)
next
  case r_empty
  show ?case by (simp add: EmptyDataBlock_def)
next
  case (r_Compress b)
  then show ?case by (simp add: Compress_keeps_length)
next
  case (r_Decompress b)
  then show ?case by (simp add: Decompress_keeps_length)
qed

theorem length_field_is_payload_length_witness:
  "reachable framed_gzip (fst (Compress framed_gzip (NewDataBlock [1, 2, 3] True))) \<and>
   data (fst (Compress framed_gzip (NewDataBlock [1, 2, 3] True))) = [0x1f, 0x8b, 1, 2, 3] \<and>
   length_f (fst (Compress framed_gzip (NewDataBlock [1, 2, 3] True))) = 5"
proof -
  let ?b = "fst (Compress framed_gzip (NewDataBlock [1, 2, 3] True))"
  have r: "reachable framed_gzip ?b"
    by (intro reachable.intros)
  have d: "data ?b = [0x1f, 0x8b, 1, 2, 3]"
    by (simp add: Compress_def NewDataBlock_def compress_def gzipWrite_def
        framed_gzip_def framed_Writer_def)
  from length_field_is_payload_length [OF r] d have "length_f ?b = 5"
    by simp
  with r d show ?thesis by simp
qed

subsection \<open>The flag and the payload\<close>

text \<open>
  \<^verbatim>\<open>Compress\<close> on an empty block never reaches gzip: the guard of \<^verbatim>\<open>compress\<close>
  returns the empty slice, and the block is flagged compressed with it.
\<close>

lemma Compress_empty:
  "Compress lib (NewDataBlock [] speed) =
     (\<lparr>data = [], compressed = True, length_f = 0, compressionSpeed = speed\<rparr>, None)"
  by (simp add: Compress_def NewDataBlock_def compress_def)

lemma stores_New: "stores lib (NewDataBlock d speed) d"
  by (simp add: stores_def NewDataBlock_def)

lemma stores_Compress:
  assumes "gzip_sound lib" and "stores lib b d"
  shows "stores lib (fst (Compress lib b)) d"
proof (cases "compressed b")
  case True
  with assms(2) show ?thesis by (simp add: Compress_def)
next
  case False
  with assms(2) have d: "data b = d" and len: "length_f b = int (length (data b))"
    by (simp_all add: stores_def)
  show ?thesis
  proof (cases "compress lib d (compressionSpeed b)")
    case (Inl err)
    with False d assms(2) show ?thesis by (simp add: Compress_def)
  next
    case (Inr r)
    obtain buf n where r: "r = (buf, n)" by (cases r)
    from Inr r have c: "compress lib d (compressionSpeed b) = Inr (buf, n)" by simp
    then have n: "n = int (length buf)" by (rule compress_length)
    have enc: "if d = [] then buf = [] else buf \<noteq> [] \<and> gzip_Reader lib buf = Inr d"
    proof (cases "d = []")
      case True
      with c show ?thesis by (simp add: compress_def)
    next
      case False
      with compress_Inr_nonempty [OF assms(1) False c] show ?thesis by simp
    qed
    from False d c
    have "fst (Compress lib b) = b\<lparr>data := buf, compressed := True, length_f := n\<rparr>"
      by (simp add: Compress_def)
    with n enc show ?thesis by (simp add: stores_def)
  qed
qed

lemma stores_decompress:
  assumes "stores lib b d" and "compressed b"
  shows "decompress lib (data b) = Inr (d, int (length d))"
proof (cases "d = []")
  case True
  with assms show ?thesis by (simp add: stores_def decompress_def)
next
  case False
  with assms have "data b \<noteq> []" and "gzip_Reader lib (data b) = Inr d"
    by (simp_all add: stores_def)
  then show ?thesis by (simp add: decompress_def gunzipWrite_def)
qed

lemma stores_Decompress:
  assumes "stores lib b d"
  shows "stores lib (fst (Decompress lib b)) d \<and> snd (Decompress lib b) = None \<and>
         \<not> compressed (fst (Decompress lib b))"
proof (cases "compressed b")
  case False
  with assms show ?thesis by (simp add: Decompress_def)
next
  case True
  from stores_decompress [OF assms True] True show ?thesis
    by (simp add: Decompress_def stores_def)
qed

lemma evolves_stores:
  assumes "gzip_sound lib" and "evolves lib (NewDataBlock d speed) b"
  shows "stores lib b d"
  using assms(2)
proof (induction rule: evolves.induct)
  case e_start
  show ?case by (rule stores_New)
next
  case (e_Compress b)
  with assms(1) show ?case by (simp add: stores_Compress)
next
  case (e_Decompress b)
  then show ?case by (simp add: stores_Decompress)
qed

text \<open>
  C9, as the code has it. \<^verbatim>\<open>Compress\<close> and \<^verbatim>\<open>Decompress\<close> never leave a half-done
  state: a call that returns \<^verbatim>\<open>nil\<close> leaves the flag in the target state, a call that
  returns an error leaves the block exactly as it was. With a gzip library whose reader
  decodes what its writer wrote, every block made by \<^verbatim>\<open>NewDataBlock\<close> from bytes \<open>d\<close>
  and changed by any sequence of \<^verbatim>\<open>Compress\<close> and \<^verbatim>\<open>Decompress\<close> calls has a length
  field equal to the payload length, and its flag tells how to read the payload: when
  the flag is off the payload is \<open>d\<close>; when the flag is on and \<open>d\<close> is not empty the
  payload is a gzip stream that decodes to \<open>d\<close>; when the flag is on and \<open>d\<close> is empty
  the payload is empty, because \<^verbatim>\<open>compress\<close> returns the empty slice for the empty
  slice without calling gzip.
\<close>

theorem flag_follows_encoding:
  "(snd (Compress lib b) = None \<longrightarrow> compressed (fst (Compress lib b))) \<and>
   (snd (Compress lib b) \<noteq> None \<longrightarrow> fst (Compress lib b) = b) \<and>
   (snd (Decompress lib b) = None \<longrightarrow> \<not> compressed (fst (Decompress lib b))) \<and>
   (snd (Decompress lib b) \<noteq> None \<longrightarrow> fst (Decompress lib b) = b) \<and>
   (gzip_sound lib \<and> evolves lib (NewDataBlock d speed) b \<longrightarrow>
      length_f b = int (length (data b)) \<and>
      (if compressed b
       then (if d = [] then data b = []
             else holds_gzip lib (data b) \<and> gzip_Reader lib (data b) = Inr d)
       else data b = d))"
proof (intro conjI impI)
  assume "snd (Compress lib b) = None"
  then show "compressed (fst (Compress lib b))" by (rule Compress_ok_compressed)
next
  assume "snd (Compress lib b) \<noteq> None"
  then obtain err where "snd (Compress lib b) = Some err" by auto
  then show "fst (Compress lib b) = b" by (simp add: Compress_error_unchanged)
next
  assume "snd (Decompress lib b) = None"
  then show "\<not> compressed (fst (Decompress lib b))" by (rule Decompress_ok_uncompressed)
next
  assume "snd (Decompress lib b) \<noteq> None"
  then obtain err where "snd (Decompress lib b) = Some err" by auto
  then show "fst (Decompress lib b) = b" by (simp add: Decompress_error_unchanged)
next
  assume a: "gzip_sound lib \<and> evolves lib (NewDataBlock d speed) b"
  then have s: "stores lib b d" by (elim conjE) (rule evolves_stores)
  then show "length_f b = int (length (data b))" by (simp add: stores_def)
  from s show "if compressed b
       then (if d = [] then data b = []
             else holds_gzip lib (data b) \<and> gzip_Reader lib (data b) = Inr d)
       else data b = d"
    by (auto simp: stores_def holds_gzip_def)
qed

text \<open>
  The claim as it was stated fails on the empty block: after \<^verbatim>\<open>Compress\<close> the flag is
  on and the payload is the empty slice, which no gzip reader accepts
  (\<^verbatim>\<open>gzip.NewReader\<close> returns \<^verbatim>\<open>io.EOF\<close> on it). It fails in the other direction too:
  \<^verbatim>\<open>NewDataBlock\<close> always sets the flag off, also for bytes that are a gzip stream.
\<close>

theorem empty_block_flag_diverges:
  "reachable framed_gzip (fst (Compress framed_gzip (NewDataBlock [] True))) \<and>
   fst (Compress framed_gzip (NewDataBlock [] True)) =
     \<lparr>data = [], compressed = True, length_f = 0, compressionSpeed = True\<rparr> \<and>
   \<not> holds_gzip framed_gzip (data (fst (Compress framed_gzip (NewDataBlock [] True)))) \<and>
   \<not> (compressed (fst (Compress framed_gzip (NewDataBlock [] True))) \<longleftrightarrow>
       holds_gzip framed_gzip (data (fst (Compress framed_gzip (NewDataBlock [] True))))) \<and>
   reachable framed_gzip (NewDataBlock [0x1f, 0x8b, 7] True) \<and>
   \<not> compressed (NewDataBlock [0x1f, 0x8b, 7] True) \<and>
   holds_gzip framed_gzip (data (NewDataBlock [0x1f, 0x8b, 7] True))"
proof -
  let ?b = "fst (Compress framed_gzip (NewDataBlock [] True))"
  let ?g = "NewDataBlock [0x1f, 0x8b, 7] True"
  have r: "reachable framed_gzip ?b"
    by (intro reachable.intros)
  have v: "?b = \<lparr>data = [], compressed = True, length_f = 0, compressionSpeed = True\<rparr>"
    by (simp add: Compress_empty)
  have n: "\<not> holds_gzip framed_gzip []"
    by (simp add: holds_gzip_def framed_gzip_def)
  have r': "reachable framed_gzip ?g"
    by (rule reachable.r_new)
  have u: "\<not> compressed ?g"
    by (simp add: NewDataBlock_def)
  have g: "holds_gzip framed_gzip (data ?g)"
    by (simp add: holds_gzip_def framed_gzip_def NewDataBlock_def)
  from r v n r' u g show ?thesis by simp
qed

theorem flag_follows_encoding_witness:
  "gzip_sound framed_gzip \<and>
   evolves framed_gzip (NewDataBlock [1, 2, 3] True)
     (fst (Compress framed_gzip (NewDataBlock [1, 2, 3] True))) \<and>
   compressed (fst (Compress framed_gzip (NewDataBlock [1, 2, 3] True))) \<and>
   holds_gzip framed_gzip (data (fst (Compress framed_gzip (NewDataBlock [1, 2, 3] True)))) \<and>
   gzip_Reader framed_gzip (data (fst (Compress framed_gzip (NewDataBlock [1, 2, 3] True)))) =
     Inr [1, 2, 3]"
proof -
  let ?b = "fst (Compress framed_gzip (NewDataBlock [1, 2, 3] True))"
  have e: "evolves framed_gzip (NewDataBlock [1, 2, 3] True) ?b"
    by (intro evolves.intros)
  have ok: "snd (Compress framed_gzip (NewDataBlock [1, 2, 3] True)) = None"
    by (simp add: Compress_def block_defs gzip_defs)
  note f = flag_follows_encoding [where lib = framed_gzip and b = "NewDataBlock [1, 2, 3] True"
      and d = "[]" and speed = True]
  from f [THEN conjunct1] ok have c: "compressed ?b" by simp
  note g = flag_follows_encoding [where lib = framed_gzip and b = ?b and d = "[1, 2, 3]"
      and speed = True]
  from g [THEN conjunct2, THEN conjunct2, THEN conjunct2, THEN conjunct2] framed_gzip_sound e c
  have "holds_gzip framed_gzip (data ?b) \<and> gzip_Reader framed_gzip (data ?b) = Inr [1, 2, 3]"
    by simp
  with framed_gzip_sound e c show ?thesis by simp
qed

end
